theory Spec2Isabelle
  imports Complex_Main
begin

section \<open>RFM scoring pipeline of app.py\<close>

text \<open>
  The program is a single Python module, \<^verbatim>\<open>app.py\<close>, whose two functions
  \<^verbatim>\<open>preprocess_data\<close> and \<^verbatim>\<open>create_plots\<close> transform a pandas table.
  A table is modelled as the list of its rows; after the two merges the index of the
  table is the position of the row (a fresh range index), so a row label is a list
  position.

  Conventions of the embedding:
  \<^item> numbers that pandas holds as floats (amounts, bin edges) are exact rationals, so
    rounding of binary floating point is not modelled;
  \<^item> a date is the number of its day (an \<^typ>\<open>int\<close>); the date parser behind
    \<^verbatim>\<open>pd.to_datetime\<close> is a parameter \<open>parse\<close> that returns \<open>None\<close> where parsing
    fails;
  \<^item> a missing value (NaN, NaT) is \<open>None\<close>;
  \<^item> \<^verbatim>\<open>CustomerID\<close> and \<^verbatim>\<open>TransactionAmount\<close> are always present, \<^verbatim>\<open>OrderID\<close>
    and \<^verbatim>\<open>PurchaseDate\<close> may be missing or malformed;
  \<^item> an exception is a value of type \<open>error\<close>, returned as \<open>Inl\<close>;
  \<^item> the generator behind \<^verbatim>\<open>sample(frac, random_state=1)\<close> is a parameter
    \<open>choice\<close>: \<open>choice seed n k\<close> stands for
    \<^verbatim>\<open>RandomState(seed).choice(n, size=k, replace=False)\<close>.
\<close>

subsection \<open>Data\<close>

datatype error =
    AttributeError_days
  | ValueError_cut_empty
  | ValueError_bin_edges
  | ValueError_bin_labels
  | ValueError_nan_to_int

text \<open>One row of \<^verbatim>\<open>rfm_data.csv\<close> as \<^verbatim>\<open>pd.read_csv\<close> returns it.\<close>

record txn =
  CustomerID :: nat
  OrderID :: "nat option"
  PurchaseDate :: string
  TransactionAmount :: rat

text \<open>
  One row of the table \<^verbatim>\<open>preprocess_data\<close> returns: \<open>txn\<close> holds the four
  columns as they were read, \<open>Date\<close> the \<^verbatim>\<open>PurchaseDate\<close> column after line 16; the
  other fields are the columns the function adds (\<open>Value_Segment\<close> and
  \<open>RFM_Customer_Segments\<close> stand for the columns \<^verbatim>\<open>'Value Segment'\<close> and
  \<^verbatim>\<open>'RFM Customer Segments'\<close>).
\<close>

record scored_row =
  txn :: txn
  Date :: "int option"
  Recency :: int
  Frequency :: "nat option"
  MonetaryValue :: "rat option"
  RecencyScore :: int
  FrequencyScore :: int
  MonetaryScore :: int
  RFM_Score :: int
  Value_Segment :: "string option"
  RFM_Customer_Segments :: string

text \<open>
  What a request reads from outside the program: the file, the clock
  (\<^verbatim>\<open>datetime.now()\<close>: a day and the second within it) and the state of the global
  numpy generator.
\<close>

record world =
  rfm_data_csv :: "txn list"
  now_day :: int
  now_second :: nat
  global_random_state :: nat

subsection \<open>Lines 16 to 19: dates and Recency\<close>

text \<open>\<^verbatim>\<open>pd.to_datetime(col, errors='coerce')\<close>: a value that does not parse becomes NaT.\<close>

definition to_datetime :: "(string \<Rightarrow> int option) \<Rightarrow> string list \<Rightarrow> int option list" where
  "to_datetime parse col = map parse col"

text \<open>
  \<^verbatim>\<open>datetime.now().date() - col.dt.date\<close> on a column of date objects: the
  subtraction is done on the values that are present, a missing date gives NaN.
\<close>

definition rsub_date :: "int \<Rightarrow> int option list \<Rightarrow> int option list" where
  "rsub_date today col = map (map_option (\<lambda>d. today - d)) col"

text \<open>
  \<^verbatim>\<open>.apply(lambda x: x.days)\<close> visits the elements in order. A time difference has
  the attribute \<^verbatim>\<open>days\<close>; the float NaN has not, and the call raises.
\<close>

fun apply_days :: "int option list \<Rightarrow> error + int list" where
  "apply_days [] = Inr []"
| "apply_days (None # xs) = Inl AttributeError_days"
| "apply_days (Some d # xs) =
     (case apply_days xs of Inl e \<Rightarrow> Inl e | Inr ds \<Rightarrow> Inr (d # ds))"

subsection \<open>Lines 22 to 29: group-by aggregates and left merges\<close>

text \<open>The keys of a group-by, each once, in ascending order.\<close>

definition group_keys :: "(nat \<times> 'v) list \<Rightarrow> nat list" where
  "group_keys kvs = sort (remdups (map fst kvs))"

text \<open>\<^verbatim>\<open>groupby(key)[col].count()\<close>: the number of values of the group that are present.\<close>

definition groupby_count :: "(nat \<times> 'v option) list \<Rightarrow> (nat \<times> nat) list" where
  "groupby_count kvs =
     map (\<lambda>k. (k, length (filter (\<lambda>kv. fst kv = k \<and> snd kv \<noteq> None) kvs))) (group_keys kvs)"

text \<open>\<^verbatim>\<open>groupby(key)[col].sum()\<close>.\<close>

definition groupby_sum :: "(nat \<times> rat) list \<Rightarrow> (nat \<times> rat) list" where
  "groupby_sum kvs =
     map (\<lambda>k. (k, sum_list (map snd (filter (\<lambda>kv. fst kv = k) kvs)))) (group_keys kvs)"

text \<open>
  \<^verbatim>\<open>left.merge(right, on=key, how='left')\<close>: every left row, in the order of the left
  table, once for each right row with its key, and once with a missing value when no
  right row has its key.
\<close>

definition merge_left :: "'a list \<Rightarrow> ('a \<Rightarrow> nat) \<Rightarrow> (nat \<times> 'b) list \<Rightarrow> ('a \<times> 'b option) list" where
  "merge_left left key right =
     concat (map (\<lambda>l. case filter (\<lambda>kv. fst kv = key l) right of
                         [] \<Rightarrow> [(l, None)]
                       | ms \<Rightarrow> map (\<lambda>kv. (l, Some (snd kv))) ms) left)"

subsection \<open>Lines 37 to 51: \<^verbatim>\<open>pd.cut\<close> with a number of bins\<close>

text \<open>
  \<^verbatim>\<open>np.linspace(start, stop, num)\<close>: \<open>num\<close> points from \<open>start\<close>, the last one set to
  \<open>stop\<close>. It is only called with \<open>num \<ge> 2\<close> here.
\<close>

definition linspace :: "rat \<Rightarrow> rat \<Rightarrow> nat \<Rightarrow> rat list" where
  "linspace start stop num =
     (let step = (stop - start) / of_nat (num - 1);
          y = map (\<lambda>i. of_nat i * step + start) [0..<num]
      in if 1 < num then y[num - 1 := stop] else y)"

text \<open>
  The bin edges for \<open>nbins\<close> bins over the values that are present (\<open>vals\<close>, not empty).
  When all values are equal the range is widened by 0.1 percent of the value on both
  sides (by 0.001 when the value is 0); otherwise the lowest edge is lowered by
  0.1 percent of the range.
\<close>

definition nbins_to_bins :: "rat list \<Rightarrow> nat \<Rightarrow> rat list" where
  "nbins_to_bins vals nbins =
     (let mn = Min (set vals); mx = Max (set vals)
      in if mn = mx then
           (let mn' = mn - (if mn \<noteq> 0 then (1 / 1000) * \<bar>mn\<bar> else 1 / 1000);
                mx' = mx + (if mx \<noteq> 0 then (1 / 1000) * \<bar>mx\<bar> else 1 / 1000)
            in linspace mn' mx' (nbins + 1))
         else
           (let bins = linspace mn mx (nbins + 1);
                adj = (mx - mn) * (1 / 1000)
            in bins[0 := bins ! 0 - adj]))"

text \<open>
  \<^verbatim>\<open>bins.searchsorted(x, side='left')\<close> on ascending edges: the number of edges
  strictly below \<open>x\<close>.
\<close>

definition searchsorted_left :: "rat list \<Rightarrow> rat \<Rightarrow> nat" where
  "searchsorted_left bins x = length (filter (\<lambda>b. b < x) bins)"

text \<open>
  The bin of a value, counted from 0: \<open>None\<close> for a missing value and for a value
  outside the edges.
\<close>

definition bin_index :: "rat list \<Rightarrow> rat option \<Rightarrow> nat option" where
  "bin_index bins v =
     (case v of
        None \<Rightarrow> None
      | Some a \<Rightarrow>
          (let ids = searchsorted_left bins a
           in if ids = length bins \<or> ids = 0 then None else Some (ids - 1)))"

definition bins_to_cuts :: "rat option list \<Rightarrow> rat list \<Rightarrow> 'l list \<Rightarrow> error + 'l option list" where
  "bins_to_cuts x bins labels =
     (if length labels \<noteq> length bins - 1 then Inl ValueError_bin_labels
      else Inr (map (\<lambda>v. map_option (\<lambda>i. labels ! i) (bin_index bins v)) x))"

definition cut :: "rat option list \<Rightarrow> nat \<Rightarrow> 'l list \<Rightarrow> error + 'l option list" where
  "cut x nbins labels =
     (if x = [] then Inl ValueError_cut_empty
      else
        (let vals = concat (map (\<lambda>v. case v of None \<Rightarrow> [] | Some a \<Rightarrow> [a]) x)
         in if vals = [] then Inl ValueError_bin_edges
            else bins_to_cuts x (nbins_to_bins vals nbins) labels))"

text \<open>\<^verbatim>\<open>.astype(int)\<close> on a column of labels: a missing label raises.\<close>

fun astype_int :: "int option list \<Rightarrow> error + int list" where
  "astype_int [] = Inr []"
| "astype_int (None # xs) = Inl ValueError_nan_to_int"
| "astype_int (Some d # xs) =
     (case astype_int xs of Inl e \<Rightarrow> Inl e | Inr ds \<Rightarrow> Inr (d # ds))"

definition recency_scores :: "int list" where
  "recency_scores = [5, 4, 3, 2, 1]"

definition frequency_scores :: "int list" where
  "frequency_scores = [1, 2, 3, 4, 5]"

definition monetary_scores :: "int list" where
  "monetary_scores = [1, 2, 3, 4, 5]"

definition segment_labels :: "string list" where
  "segment_labels = [''Low-Value'', ''Mid-Value'', ''High-Value'']"

text \<open>A score column: \<^verbatim>\<open>pd.cut(col, bins=5, labels=...)\<close>, then \<^verbatim>\<open>.astype(int)\<close>.\<close>

definition score_column :: "rat option list \<Rightarrow> int list \<Rightarrow> error + int list" where
  "score_column col labels =
     (case cut col 5 labels of Inl e \<Rightarrow> Inl e | Inr c \<Rightarrow> astype_int c)"

subsection \<open>Lines 54 to 59: the customer segments\<close>

text \<open>\<^verbatim>\<open>data.loc[mask, column] = value\<close> on one column.\<close>

definition loc_assign :: "bool list \<Rightarrow> 'v \<Rightarrow> 'v list \<Rightarrow> 'v list" where
  "loc_assign cond v col = map (\<lambda>(m, old). if m then v else old) (zip cond col)"

definition customer_segments :: "int list \<Rightarrow> string list" where
  "customer_segments rfm =
     (let c0 = map (\<lambda>_. []) rfm;
          c1 = loc_assign (map (\<lambda>s. 9 \<le> s) rfm) ''Champions'' c0;
          c2 = loc_assign (map (\<lambda>s. 6 \<le> s \<and> s < 9) rfm) ''Potential Loyalists'' c1;
          c3 = loc_assign (map (\<lambda>s. 5 \<le> s \<and> s < 6) rfm) ''At Risk Customers'' c2;
          c4 = loc_assign (map (\<lambda>s. 4 \<le> s \<and> s < 5) rfm) ''Can't Lose'' c3;
          c5 = loc_assign (map (\<lambda>s. 3 \<le> s \<and> s < 4) rfm) ''Lost'' c4
      in c5)"

subsection \<open>\<^verbatim>\<open>preprocess_data\<close>\<close>

text \<open>
  Lines 13 to 29: the table with its Recency, Frequency and MonetaryValue columns. A
  row is the transaction, its parsed date and Recency, then the two merged columns.
\<close>

definition rfm_metrics ::
  "(string \<Rightarrow> int option) \<Rightarrow> world \<Rightarrow>
     error + (((txn \<times> int option \<times> int) \<times> nat option) \<times> rat option) list" where
  "rfm_metrics parse w =
     (let data = rfm_data_csv w;
          dates = to_datetime parse (map PurchaseDate data)
      in case apply_days (rsub_date (now_day w) dates) of
           Inl e \<Rightarrow> Inl e
         | Inr recency \<Rightarrow>
     (let data1 = zip data (zip dates recency);
          frequency_data = groupby_count (map (\<lambda>(t, d, r). (CustomerID t, OrderID t)) data1);
          data2 = merge_left data1 (\<lambda>(t, d, r). CustomerID t) frequency_data;
          monetary_data =
            groupby_sum (map (\<lambda>((t, d, r), f). (CustomerID t, TransactionAmount t)) data2);
          data3 = merge_left data2 (\<lambda>((t, d, r), f). CustomerID t) monetary_data
      in Inr data3))"

text \<open>
  The rows of the final table from its columns: row \<open>i\<close> holds entry \<open>i\<close> of every
  column (the columns of one table share its index).
\<close>

definition assemble ::
  "(((txn \<times> int option \<times> int) \<times> nat option) \<times> rat option) list \<Rightarrow> int list \<Rightarrow> int list \<Rightarrow> int list \<Rightarrow>
     string option list \<Rightarrow> string list \<Rightarrow> scored_row list" where
  "assemble data3 rs fs ms vs cs =
     map (\<lambda>i. case data3 ! i of
                 (((t, d, r), f), m) \<Rightarrow>
                   \<lparr>txn = t, Date = d, Recency = r, Frequency = f, MonetaryValue = m,
                    RecencyScore = rs ! i, FrequencyScore = fs ! i, MonetaryScore = ms ! i,
                    RFM_Score = rs ! i + fs ! i + ms ! i,
                    Value_Segment = vs ! i, RFM_Customer_Segments = cs ! i\<rparr>)
       [0..<length data3]"

text \<open>Lines 31 to 61.\<close>

definition preprocess_data :: "(string \<Rightarrow> int option) \<Rightarrow> world \<Rightarrow> error + scored_row list" where
  "preprocess_data parse w =
     (case rfm_metrics parse w of
        Inl e \<Rightarrow> Inl e
      | Inr data3 \<Rightarrow>
     (case score_column (map (\<lambda>(((t, d, r), f), m). Some (of_int r)) data3) recency_scores of
        Inl e \<Rightarrow> Inl e
      | Inr rs \<Rightarrow>
     (case score_column (map (\<lambda>(((t, d, r), f), m). map_option of_nat f) data3)
             frequency_scores of
        Inl e \<Rightarrow> Inl e
      | Inr fs \<Rightarrow>
     (case score_column (map (\<lambda>(((t, d, r), f), m). m) data3) monetary_scores of
        Inl e \<Rightarrow> Inl e
      | Inr ms \<Rightarrow>
     (let rfm = map (\<lambda>i. rs ! i + fs ! i + ms ! i) [0..<length data3]
      in case cut (map (\<lambda>s. Some (of_int s)) rfm) 3 segment_labels of
           Inl e \<Rightarrow> Inl e
         | Inr vs \<Rightarrow> Inr (assemble data3 rs fs ms vs (customer_segments rfm)))))))"

subsection \<open>Lines 101 to 105 of \<^verbatim>\<open>create_plots\<close>: the re-engagement pass\<close>

text \<open>Python's \<^verbatim>\<open>round\<close> of a number to an integer: a tie goes to the even neighbour.\<close>

definition py_round :: "rat \<Rightarrow> int" where
  "py_round q =
     (let f = \<lfloor>q\<rfloor>; d = q - of_int f
      in if d < 1 / 2 then f else if 1 / 2 < d then f + 1 else if even f then f else f + 1)"

definition reactivation_rate :: rat where
  "reactivation_rate = 2 / 10"

text \<open>The index of \<^verbatim>\<open>data[data['RFM Customer Segments'] == "Lost"]\<close>.\<close>

definition lost_customers :: "scored_row list \<Rightarrow> nat list" where
  "lost_customers data =
     filter (\<lambda>i. RFM_Customer_Segments (data ! i) = ''Lost'') [0..<length data]"

text \<open>
  \<^verbatim>\<open>lost_customers.sample(frac=reactivation_rate, random_state=1)\<close>: the number of rows
  is \<^verbatim>\<open>round(frac * len(lost_customers))\<close>, the generator picks that many positions of
  the subset, and the result carries the index labels at these positions.
\<close>

definition sample_size :: "nat \<Rightarrow> nat" where
  "sample_size n = nat (py_round (reactivation_rate * of_nat n))"

definition reactivated_customers :: "(nat \<Rightarrow> nat \<Rightarrow> nat \<Rightarrow> nat list) \<Rightarrow> scored_row list \<Rightarrow> nat list" where
  "reactivated_customers choice data =
     (let lost = lost_customers data;
          locs = choice 1 (length lost) (sample_size (length lost))
      in map (\<lambda>p. lost ! p) locs)"

text \<open>\<^verbatim>\<open>data.loc[index, 'RFM Customer Segments'] = value\<close>.\<close>

definition loc_set_segment :: "nat list \<Rightarrow> string \<Rightarrow> scored_row list \<Rightarrow> scored_row list" where
  "loc_set_segment idx v data =
     map (\<lambda>(i, r). if i \<in> set idx then r\<lparr>RFM_Customer_Segments := v\<rparr> else r)
       (zip [0..<length data] data)"

text \<open>
  The table as \<^verbatim>\<open>create_plots\<close> leaves it (the function changes its argument in
  place); the four figures are drawn from it and are not modelled.
\<close>

definition create_plots :: "(nat \<Rightarrow> nat \<Rightarrow> nat \<Rightarrow> nat list) \<Rightarrow> scored_row list \<Rightarrow> scored_row list" where
  "create_plots choice data =
     loc_set_segment (reactivated_customers choice data) ''Potential Loyalists'' data"

text \<open>The entry of \<^verbatim>\<open>data['RFM Customer Segments'].value_counts()\<close> for a segment.\<close>

definition segment_count :: "scored_row list \<Rightarrow> string \<Rightarrow> nat" where
  "segment_count data s = length (filter (\<lambda>r. RFM_Customer_Segments r = s) data)"

text \<open>The request handler: the table the page is rendered from.\<close>

definition index ::
  "(string \<Rightarrow> int option) \<Rightarrow> (nat \<Rightarrow> nat \<Rightarrow> nat \<Rightarrow> nat list) \<Rightarrow> world \<Rightarrow> error + scored_row list" where
  "index parse choice w =
     (case preprocess_data parse w of Inl e \<Rightarrow> Inl e | Inr data \<Rightarrow> Inr (create_plots choice data))"

subsection \<open>Notions used to state the properties\<close>

text \<open>Per customer: the rows, the rows that carry an order, the total amount.\<close>

definition row_count :: "txn list \<Rightarrow> nat \<Rightarrow> nat" where
  "row_count data c = length (filter (\<lambda>t. CustomerID t = c) data)"

definition order_count :: "txn list \<Rightarrow> nat \<Rightarrow> nat" where
  "order_count data c = length (filter (\<lambda>t. CustomerID t = c \<and> OrderID t \<noteq> None) data)"

definition amount_sum :: "txn list \<Rightarrow> nat \<Rightarrow> rat" where
  "amount_sum data c = sum_list (map TransactionAmount (filter (\<lambda>t. CustomerID t = c) data))"

text \<open>
  The segment rule in the words of the specification: a chain of five rules, the first
  that matches wins, and a score that matches none keeps the empty segment.
\<close>

definition segment_rule :: "int \<Rightarrow> string" where
  "segment_rule s =
     (if 9 \<le> s then ''Champions''
      else if 6 \<le> s \<and> s < 9 then ''Potential Loyalists''
      else if 5 \<le> s \<and> s < 6 then ''At Risk Customers''
      else if 4 \<le> s \<and> s < 5 then ''Can't Lose''
      else if 3 \<le> s \<and> s < 4 then ''Lost''
      else [])"




text \<open>
  The row of the metrics table for a transaction and its parsed date: what lines 13 to
  29 compute when every date parses.
\<close>

definition metrics_row ::
  "txn list \<Rightarrow> int \<Rightarrow> txn \<times> int \<Rightarrow> ((txn \<times> int option \<times> int) \<times> nat option) \<times> rat option" where
  "metrics_row data today p =
     (((fst p, Some (snd p), today - snd p), Some (order_count data (CustomerID (fst p)))),
      Some (amount_sum data (CustomerID (fst p))))"

subsection \<open>Concrete inputs\<close>

text \<open>A date parser that knows four dates (as days since 1970-01-01) and rejects the rest.\<close>

definition ex_parse :: "string \<Rightarrow> int option" where
  "ex_parse s =
     (if s = ''2023-03-02'' then Some 19418
      else if s = ''2023-06-05'' then Some 19513
      else if s = ''2023-06-09'' then Some 19517
      else if s = ''2023-06-10'' then Some 19518
      else None)"

text \<open>
  Six transactions of four customers, read on 2023-06-10; one row of customer 4 has no
  \<^verbatim>\<open>OrderID\<close>.
\<close>

definition ex_data :: "txn list" where
  "ex_data =
     [\<lparr>CustomerID = 1, OrderID = Some 101, PurchaseDate = ''2023-03-02'', TransactionAmount = 1\<rparr>,
      \<lparr>CustomerID = 2, OrderID = Some 102, PurchaseDate = ''2023-03-02'', TransactionAmount = 1\<rparr>,
      \<lparr>CustomerID = 3, OrderID = Some 103, PurchaseDate = ''2023-03-02'', TransactionAmount = 1\<rparr>,
      \<lparr>CustomerID = 4, OrderID = Some 104, PurchaseDate = ''2023-06-10'', TransactionAmount = 50\<rparr>,
      \<lparr>CustomerID = 4, OrderID = None, PurchaseDate = ''2023-06-10'', TransactionAmount = 50\<rparr>,
      \<lparr>CustomerID = 4, OrderID = Some 106, PurchaseDate = ''2023-06-10'', TransactionAmount = 50\<rparr>]"

definition ex_world :: world where
  "ex_world = \<lparr>rfm_data_csv = ex_data, now_day = 19518, now_second = 36000, global_random_state = 0\<rparr>"

text \<open>The table \<^verbatim>\<open>preprocess_data\<close> returns for it.\<close>

definition ex_out :: "scored_row list" where
  "ex_out =
     [\<lparr>txn = ex_data ! 0, Date = Some 19418, Recency = 100, Frequency = Some 1, MonetaryValue = Some 1,
       RecencyScore = 1, FrequencyScore = 1, MonetaryScore = 1, RFM_Score = 3,
       Value_Segment = Some ''Low-Value'', RFM_Customer_Segments = ''Lost''\<rparr>,
      \<lparr>txn = ex_data ! 1, Date = Some 19418, Recency = 100, Frequency = Some 1, MonetaryValue = Some 1,
       RecencyScore = 1, FrequencyScore = 1, MonetaryScore = 1, RFM_Score = 3,
       Value_Segment = Some ''Low-Value'', RFM_Customer_Segments = ''Lost''\<rparr>,
      \<lparr>txn = ex_data ! 2, Date = Some 19418, Recency = 100, Frequency = Some 1, MonetaryValue = Some 1,
       RecencyScore = 1, FrequencyScore = 1, MonetaryScore = 1, RFM_Score = 3,
       Value_Segment = Some ''Low-Value'', RFM_Customer_Segments = ''Lost''\<rparr>,
      \<lparr>txn = ex_data ! 3, Date = Some 19518, Recency = 0, Frequency = Some 2, MonetaryValue = Some 150,
       RecencyScore = 5, FrequencyScore = 5, MonetaryScore = 5, RFM_Score = 15,
       Value_Segment = Some ''High-Value'', RFM_Customer_Segments = ''Champions''\<rparr>,
      \<lparr>txn = ex_data ! 4, Date = Some 19518, Recency = 0, Frequency = Some 2, MonetaryValue = Some 150,
       RecencyScore = 5, FrequencyScore = 5, MonetaryScore = 5, RFM_Score = 15,
       Value_Segment = Some ''High-Value'', RFM_Customer_Segments = ''Champions''\<rparr>,
      \<lparr>txn = ex_data ! 5, Date = Some 19518, Recency = 0, Frequency = Some 2, MonetaryValue = Some 150,
       RecencyScore = 5, FrequencyScore = 5, MonetaryScore = 5, RFM_Score = 15,
       Value_Segment = Some ''High-Value'', RFM_Customer_Segments = ''Champions''\<rparr>]"

text \<open>
  A stand-in for the generator: the last \<open>k\<close> of the \<open>n\<close> positions, whatever the
  seed.
\<close>

definition ex_choice :: "nat \<Rightarrow> nat \<Rightarrow> nat \<Rightarrow> nat list" where
  "ex_choice seed n k = take k (rev [0..<n])"

text \<open>The six transactions and a seventh whose date does not parse.\<close>

definition bad_world :: world where
  "bad_world =
     \<lparr>rfm_data_csv = ex_data @
        [\<lparr>CustomerID = 5, OrderID = Some 107, PurchaseDate = ''not a date'', TransactionAmount = 20\<rparr>],
      now_day = 19518, now_second = 36000, global_random_state = 0\<rparr>"





section \<open>Auxiliary facts\<close>

subsection \<open>Element-wise conversions, group-by and merge\<close>

lemma apply_days_Inr: "apply_days xs = Inr ds \<Longrightarrow> xs = map Some ds"
  by (induction xs arbitrary: ds rule: apply_days.induct) (auto split: sum.splits)

lemma apply_days_Some: "apply_days (map Some ds) = Inr ds"
  by (induction ds) auto

lemma apply_days_None: "None \<in> set xs \<Longrightarrow> apply_days xs = Inl AttributeError_days"
  by (induction xs rule: apply_days.induct) (auto split: sum.splits)

lemma astype_int_Inr: "astype_int xs = Inr ds \<Longrightarrow> xs = map Some ds"
  by (induction xs arbitrary: ds rule: astype_int.induct) (auto split: sum.splits)


lemma distinct_group_keys: "distinct (group_keys kvs)"
  by (simp add: group_keys_def)

lemma set_group_keys: "set (group_keys kvs) = fst ` set kvs"
  by (simp add: group_keys_def)

lemma filter_key_unique:
  "distinct (map fst right) \<Longrightarrow> (k, v) \<in> set right \<Longrightarrow> filter (\<lambda>kv. fst kv = k) right = [(k, v)]"
proof (induction right)
  case Nil
  then show ?case by simp
next
  case (Cons a right)
  show ?case
  proof (cases "a = (k, v)")
    case True
    with Cons.prems have "\<forall>kv \<in> set right. fst kv \<noteq> k" by force
    then have "filter (\<lambda>kv. fst kv = k) right = []" by (simp add: filter_empty_conv)
    with True show ?thesis by simp
  next
    case False
    with Cons.prems have in_right: "(k, v) \<in> set right" by simp
    then have "k \<in> set (map fst right)" by force
    with Cons.prems have "fst a \<noteq> k" by auto
    with Cons in_right show ?thesis by simp
  qed
qed

lemma merge_left_keyed:
  assumes "distinct ks" and "\<forall>l \<in> set left. key l \<in> set ks"
  shows "merge_left left key (map (\<lambda>k. (k, f k)) ks) = map (\<lambda>l. (l, Some (f (key l)))) left"
proof -
  have d: "distinct (map fst (map (\<lambda>k. (k, f k)) ks))"
    using assms(1) by (simp add: comp_def)
  have "filter (\<lambda>kv. fst kv = key l) (map (\<lambda>k. (k, f k)) ks) = [(key l, f (key l))]"
    if "l \<in> set left" for l
    using that assms(2) by (intro filter_key_unique [OF d]) auto
  then show ?thesis
    unfolding merge_left_def by (induction left) auto
qed

lemma merge_left_groupby_count:
  "merge_left rows key (groupby_count (map (\<lambda>r. (key r, v r)) rows)) =
     map (\<lambda>l. (l, Some (length (filter (\<lambda>r. key r = key l \<and> v r \<noteq> None) rows)))) rows"
proof -
  have "merge_left rows key (groupby_count (map (\<lambda>r. (key r, v r)) rows)) =
     map (\<lambda>l. (l, Some (length (filter (\<lambda>kv. fst kv = key l \<and> snd kv \<noteq> None) (map (\<lambda>r. (key r, v r)) rows))))) rows"
    unfolding groupby_count_def
    by (rule merge_left_keyed) (auto simp: distinct_group_keys set_group_keys image_image)
  then show ?thesis by (simp add: filter_map comp_def)
qed

lemma merge_left_groupby_sum:
  "merge_left rows key (groupby_sum (map (\<lambda>r. (key r, v r)) rows)) =
     map (\<lambda>l. (l, Some (sum_list (map v (filter (\<lambda>r. key r = key l) rows))))) rows"
proof -
  have "merge_left rows key (groupby_sum (map (\<lambda>r. (key r, v r)) rows)) =
     map (\<lambda>l. (l, Some (sum_list (map snd (filter (\<lambda>kv. fst kv = key l) (map (\<lambda>r. (key r, v r)) rows)))))) rows"
    unfolding groupby_sum_def
    by (rule merge_left_keyed) (auto simp: distinct_group_keys set_group_keys image_image)
  then show ?thesis by (simp add: filter_map comp_def)
qed

subsection \<open>Bin edges and \<^verbatim>\<open>pd.cut\<close>\<close>







lemma bin_index_less: "bin_index bins v = Some i \<Longrightarrow> i < length bins - 1"
proof -
  assume a: "bin_index bins v = Some i"
  then obtain x where v: "v = Some x" by (cases v) (auto simp: bin_index_def)
  have "searchsorted_left bins x \<le> length bins"
    by (simp add: searchsorted_left_def)
  moreover from a v have "searchsorted_left bins x \<noteq> length bins" "searchsorted_left bins x \<noteq> 0"
    and "i = searchsorted_left bins x - 1"
    by (auto simp: bin_index_def Let_def split: if_splits)
  ultimately show ?thesis by linarith
qed





lemma length_cut: "cut x nbins labels = Inr c \<Longrightarrow> length c = length x"
  by (auto simp: cut_def bins_to_cuts_def Let_def split: if_splits)

lemma cut_labels:
  assumes "cut x nbins labels = Inr c" and "Some l \<in> set c"
  shows "l \<in> set labels"
proof -
  let ?vals = "concat (map (\<lambda>v. case v of None \<Rightarrow> [] | Some a \<Rightarrow> [a]) x)"
  let ?bins = "nbins_to_bins ?vals nbins"
  from assms(1) have len: "length labels = length ?bins - 1"
    and c: "c = map (\<lambda>v. map_option (\<lambda>i. labels ! i) (bin_index ?bins v)) x"
    by (auto simp: cut_def bins_to_cuts_def Let_def split: if_splits)
  from assms(2) c obtain v where "Some l = map_option (\<lambda>i. labels ! i) (bin_index ?bins v)"
    by auto
  then obtain i where "bin_index ?bins v = Some i" and l: "l = labels ! i"
    by (cases "bin_index ?bins v") auto
  from bin_index_less [OF this(1)] len have "i < length labels" by simp
  with l show ?thesis by simp
qed

lemma length_score_column: "score_column col labels = Inr rs \<Longrightarrow> length rs = length col"
  by (auto simp: score_column_def split: sum.splits dest!: astype_int_Inr length_cut)

lemma score_column_labels:
  assumes "score_column col labels = Inr rs"
  shows "set rs \<subseteq> set labels"
proof
  fix s assume s: "s \<in> set rs"
  from assms obtain c where c: "cut col 5 labels = Inr c" and "astype_int c = Inr rs"
    by (auto simp: score_column_def split: sum.splits)
  from astype_int_Inr [OF this(2)] s have "Some s \<in> set c" by simp
  with c show "s \<in> set labels" by (rule cut_labels)
qed


subsection \<open>The metrics table\<close>

lemma rsub_date_Some:
  assumes "rsub_date today dates = map Some recency"
  shows "\<exists>ds. dates = map Some ds \<and> recency = map (\<lambda>d. today - d) ds"
  using assms
proof (induction dates arbitrary: recency)
  case Nil
  then show ?case by (simp add: rsub_date_def)
next
  case (Cons x dates)
  from Cons.prems obtain r rs where recency: "recency = r # rs"
    by (cases recency) (auto simp: rsub_date_def)
  with Cons.prems obtain d where x: "x = Some d" and r: "r = today - d"
    by (cases x) (auto simp: rsub_date_def)
  from Cons.prems recency have "rsub_date today dates = map Some rs"
    by (simp add: rsub_date_def)
  from Cons.IH [OF this] obtain ds where "dates = map Some ds" "rs = map (\<lambda>d. today - d) ds"
    by blast
  with x r recency show ?case by (intro exI [of _ "d # ds"]) simp
qed

lemma filter_zip_fst:
  "length xs = length ys \<Longrightarrow> map fst (filter (\<lambda>p. P (fst p)) (zip xs ys)) = filter P xs"
  by (induction xs ys rule: list_induct2) auto

lemma zip_dates_recency:
  "zip xs (zip (map Some ds) (map f ds)) = map (\<lambda>p. (fst p, Some (snd p), f (snd p))) (zip xs ds)"
proof (induction xs arbitrary: ds)
  case Nil
  then show ?case by simp
next
  case (Cons x xs)
  then show ?case by (cases ds) auto
qed

lemma rfm_metrics_present:
  assumes ds: "map (\<lambda>t. parse (PurchaseDate t)) (rfm_data_csv w) = map Some ds"
  shows "rfm_metrics parse w =
           Inr (map (metrics_row (rfm_data_csv w) (now_day w)) (zip (rfm_data_csv w) ds))"
proof -
  let ?data = "rfm_data_csv w"
  let ?dates = "to_datetime parse (map PurchaseDate ?data)"
  let ?recency = "map (\<lambda>d. now_day w - d) ds"
  from ds have dates: "?dates = map Some ds"
    by (simp add: to_datetime_def comp_def)
  have rec: "apply_days (rsub_date (now_day w) ?dates) = Inr ?recency"
    unfolding dates by (simp add: rsub_date_def comp_def apply_days_Some [of ?recency, simplified comp_def map_map])
  from ds have len: "length ?data = length ds"
    by (metis length_map)
  let ?data1 = "map (\<lambda>p. (fst p, Some (snd p), now_day w - snd p)) (zip ?data ds)"
  have data1: "zip ?data (zip ?dates ?recency) = ?data1"
    unfolding dates by (rule zip_dates_recency)
  have m1: "merge_left ?data1 (\<lambda>r. CustomerID (fst r))
              (groupby_count (map (\<lambda>r. (CustomerID (fst r), OrderID (fst r))) ?data1)) =
            map (\<lambda>l. (l, Some (length (filter (\<lambda>r. CustomerID (fst r) = CustomerID (fst l) \<and> OrderID (fst r) \<noteq> None) ?data1)))) ?data1"
    by (rule merge_left_groupby_count)
  have c1: "length (filter (\<lambda>r. CustomerID (fst r) = c \<and> OrderID (fst r) \<noteq> None) ?data1) = order_count ?data c" for c
  proof -
    have "length (filter (\<lambda>r. CustomerID (fst r) = c \<and> OrderID (fst r) \<noteq> None) ?data1)
        = length (filter (\<lambda>p. CustomerID (fst p) = c \<and> OrderID (fst p) \<noteq> None) (zip ?data ds))"
      by (simp add: filter_map comp_def)
    also have "\<dots> = length (map fst (filter (\<lambda>p. CustomerID (fst p) = c \<and> OrderID (fst p) \<noteq> None) (zip ?data ds)))"
      by simp
    also have "\<dots> = order_count ?data c"
      unfolding order_count_def using filter_zip_fst [OF len, of "\<lambda>t. CustomerID t = c \<and> OrderID t \<noteq> None"]
      by simp
    finally show ?thesis .
  qed
  let ?data2 = "map (\<lambda>l. (l, Some (order_count ?data (CustomerID (fst l))))) ?data1"
  have m2: "merge_left ?data2 (\<lambda>r. CustomerID (fst (fst r)))
              (groupby_sum (map (\<lambda>r. (CustomerID (fst (fst r)), TransactionAmount (fst (fst r)))) ?data2)) =
            map (\<lambda>l. (l, Some (sum_list (map (\<lambda>r. TransactionAmount (fst (fst r))) (filter (\<lambda>r. CustomerID (fst (fst r)) = CustomerID (fst (fst l))) ?data2))))) ?data2"
    by (rule merge_left_groupby_sum)
  have c2: "sum_list (map (\<lambda>r. TransactionAmount (fst (fst r))) (filter (\<lambda>r. CustomerID (fst (fst r)) = c) ?data2)) = amount_sum ?data c" for c
  proof -
    have "map (\<lambda>r. TransactionAmount (fst (fst r))) (filter (\<lambda>r. CustomerID (fst (fst r)) = c) ?data2)
        = map TransactionAmount (map fst (filter (\<lambda>p. CustomerID (fst p) = c) (zip ?data ds)))"
      by (simp add: filter_map comp_def)
    also have "\<dots> = map TransactionAmount (filter (\<lambda>t. CustomerID t = c) ?data)"
      using filter_zip_fst [OF len, of "\<lambda>t. CustomerID t = c"] by simp
    finally show ?thesis by (simp add: amount_sum_def)
  qed
  from rec have "rfm_metrics parse w = Inr (merge_left (merge_left ?data1 (\<lambda>r. CustomerID (fst r))
              (groupby_count (map (\<lambda>r. (CustomerID (fst r), OrderID (fst r))) ?data1))) (\<lambda>r. CustomerID (fst (fst r)))
              (groupby_sum (map (\<lambda>r. (CustomerID (fst (fst r)), TransactionAmount (fst (fst r))))
                 (merge_left ?data1 (\<lambda>r. CustomerID (fst r))
              (groupby_count (map (\<lambda>r. (CustomerID (fst r), OrderID (fst r))) ?data1))))))"
    by (simp add: rfm_metrics_def Let_def data1 case_prod_unfold)
  also have "\<dots> = Inr (map (\<lambda>l. (l, Some (amount_sum ?data (CustomerID (fst (fst l)))))) ?data2)"
    unfolding m1 c1 m2 c2 ..
  also have "\<dots> = Inr (map (metrics_row ?data (now_day w)) (zip ?data ds))"
    by (simp add: metrics_row_def)
  finally show ?thesis .
qed

lemma rfm_metrics_missing:
  assumes "t \<in> set (rfm_data_csv w)" and "parse (PurchaseDate t) = None"
  shows "rfm_metrics parse w = Inl AttributeError_days"
proof -
  from assms have "None \<in> set (rsub_date (now_day w) (to_datetime parse (map PurchaseDate (rfm_data_csv w))))"
    by (force simp: rsub_date_def to_datetime_def)
  then show ?thesis
    by (simp add: rfm_metrics_def Let_def apply_days_None)
qed

lemma rfm_metrics_Inr:
  assumes "rfm_metrics parse w = Inr data3"
  shows "\<exists>ds. map (\<lambda>t. parse (PurchaseDate t)) (rfm_data_csv w) = map Some ds \<and>
              data3 = map (metrics_row (rfm_data_csv w) (now_day w)) (zip (rfm_data_csv w) ds)"
proof -
  let ?data = "rfm_data_csv w"
  let ?dates = "to_datetime parse (map PurchaseDate ?data)"
  from assms obtain recency where rec: "apply_days (rsub_date (now_day w) ?dates) = Inr recency"
    by (auto simp: rfm_metrics_def Let_def split: sum.splits)
  from rsub_date_Some [OF apply_days_Inr [OF rec]]
  obtain ds where "?dates = map Some ds"
    by blast
  then have ds: "map (\<lambda>t. parse (PurchaseDate t)) ?data = map Some ds"
    by (simp add: to_datetime_def comp_def)
  from rfm_metrics_present [OF this] assms ds show ?thesis by auto
qed

subsection \<open>The scored table\<close>

lemma loc_assign_map:
  "loc_assign (map P xs) v (map f xs) = map (\<lambda>x. if P x then v else f x) xs"
  by (induction xs) (auto simp: loc_assign_def)

lemma customer_segments_rule: "customer_segments rfm = map segment_rule rfm"
  by (simp add: customer_segments_def Let_def loc_assign_map segment_rule_def)

lemma metrics_columns:
  assumes "length data = length ds"
  shows "map (\<lambda>(((t, d, r), f), m). Some (rat_of_int r)) (map (metrics_row data today) (zip data ds)) =
           map Some (map (\<lambda>d. rat_of_int (today - d)) ds)"
    and "map (\<lambda>(((t, d, r), f), m). map_option rat_of_nat f) (map (metrics_row data today) (zip data ds)) =
           map Some (map (\<lambda>t. rat_of_nat (order_count data (CustomerID t))) data)"
    and "map (\<lambda>(((t, d, r), f), m). m) (map (metrics_row data today) (zip data ds)) =
           map Some (map (\<lambda>t. amount_sum data (CustomerID t)) data)"
proof -
  have s: "map (\<lambda>p. g (snd p)) (zip data ds) = map g ds" for g :: "int \<Rightarrow> 'x"
    using assms by (induction data ds rule: list_induct2) auto
  have f: "map (\<lambda>p. g (fst p)) (zip data ds) = map g data" for g :: "txn \<Rightarrow> 'y"
    using assms by (induction data ds rule: list_induct2) auto
  show "map (\<lambda>(((t, d, r), f), m). Some (rat_of_int r)) (map (metrics_row data today) (zip data ds)) =
           map Some (map (\<lambda>d. rat_of_int (today - d)) ds)"
    using s [of "\<lambda>d. Some (rat_of_int (today - d))"] by (simp add: metrics_row_def comp_def)
  show "map (\<lambda>(((t, d, r), f), m). map_option rat_of_nat f) (map (metrics_row data today) (zip data ds)) =
           map Some (map (\<lambda>t. rat_of_nat (order_count data (CustomerID t))) data)"
    using f [of "\<lambda>t. Some (rat_of_nat (order_count data (CustomerID t)))"] by (simp add: metrics_row_def comp_def)
  show "map (\<lambda>(((t, d, r), f), m). m) (map (metrics_row data today) (zip data ds)) =
           map Some (map (\<lambda>t. amount_sum data (CustomerID t)) data)"
    using f [of "\<lambda>t. Some (amount_sum data (CustomerID t))"] by (simp add: metrics_row_def comp_def)
qed


lemma length_metrics: "length data = length ds \<Longrightarrow> length (map (metrics_row data today) (zip data ds)) = length data"
  by simp

lemma preprocess_data_Inr:
  assumes "preprocess_data parse w = Inr out"
  shows "\<exists>ds rs fs ms vs.
      map (\<lambda>t. parse (PurchaseDate t)) (rfm_data_csv w) = map Some ds \<and>
      score_column (map Some (map (\<lambda>d. rat_of_int (now_day w - d)) ds)) recency_scores = Inr rs \<and>
      score_column (map Some (map (\<lambda>t. rat_of_nat (order_count (rfm_data_csv w) (CustomerID t))) (rfm_data_csv w)))
        frequency_scores = Inr fs \<and>
      score_column (map Some (map (\<lambda>t. amount_sum (rfm_data_csv w) (CustomerID t)) (rfm_data_csv w)))
        monetary_scores = Inr ms \<and>
      cut (map (\<lambda>s. Some (rat_of_int s)) (map (\<lambda>i. rs ! i + fs ! i + ms ! i) [0..<length (rfm_data_csv w)]))
        3 segment_labels = Inr vs \<and>
      out = assemble (map (metrics_row (rfm_data_csv w) (now_day w)) (zip (rfm_data_csv w) ds)) rs fs ms vs
              (customer_segments (map (\<lambda>i. rs ! i + fs ! i + ms ! i) [0..<length (rfm_data_csv w)]))"
proof -
  from assms obtain data3 where m: "rfm_metrics parse w = Inr data3"
    by (auto simp: preprocess_data_def split: sum.splits)
  from rfm_metrics_Inr [OF m] obtain ds
    where ds: "map (\<lambda>t. parse (PurchaseDate t)) (rfm_data_csv w) = map Some ds"
      and data3: "data3 = map (metrics_row (rfm_data_csv w) (now_day w)) (zip (rfm_data_csv w) ds)"
    by blast
  from ds have len: "length (rfm_data_csv w) = length ds" by (metis length_map)
  note cols = metrics_columns [OF len, of "now_day w"]
  from assms m obtain rs fs ms vs where
    "score_column (map (\<lambda>(((t, d, r), f), m). Some (rat_of_int r)) data3) recency_scores = Inr rs"
    "score_column (map (\<lambda>(((t, d, r), f), m). map_option rat_of_nat f) data3) frequency_scores = Inr fs"
    "score_column (map (\<lambda>(((t, d, r), f), m). m) data3) monetary_scores = Inr ms"
    "cut (map (\<lambda>s. Some (rat_of_int s)) (map (\<lambda>i. rs ! i + fs ! i + ms ! i) [0..<length data3])) 3 segment_labels = Inr vs"
    "out = assemble data3 rs fs ms vs (customer_segments (map (\<lambda>i. rs ! i + fs ! i + ms ! i) [0..<length data3]))"
    by (auto simp: preprocess_data_def Let_def split: sum.splits)
  then show ?thesis
    unfolding data3 cols length_metrics [OF len] using ds by blast
qed


lemma length_assemble: "length (assemble data3 rs fs ms vs cs) = length data3"
  by (simp add: assemble_def)

lemma nth_assemble_metrics:
  assumes "i < length data" and "length data = length ds"
  shows "assemble (map (metrics_row data today) (zip data ds)) rs fs ms vs cs ! i =
     \<lparr>txn = data ! i, Date = Some (ds ! i), Recency = today - ds ! i,
      Frequency = Some (order_count data (CustomerID (data ! i))),
      MonetaryValue = Some (amount_sum data (CustomerID (data ! i))),
      RecencyScore = rs ! i, FrequencyScore = fs ! i, MonetaryScore = ms ! i,
      RFM_Score = rs ! i + fs ! i + ms ! i, Value_Segment = vs ! i,
      RFM_Customer_Segments = cs ! i\<rparr>"
  using assms by (simp add: assemble_def metrics_row_def)

lemma preprocess_data_rows:
  assumes "preprocess_data parse w = Inr out"
  obtains ds rs fs ms vs where
    "map (\<lambda>t. parse (PurchaseDate t)) (rfm_data_csv w) = map Some ds"
    "score_column (map Some (map (\<lambda>d. rat_of_int (now_day w - d)) ds)) recency_scores = Inr rs"
    "score_column (map Some (map (\<lambda>t. rat_of_nat (order_count (rfm_data_csv w) (CustomerID t))) (rfm_data_csv w)))
        frequency_scores = Inr fs"
    "score_column (map Some (map (\<lambda>t. amount_sum (rfm_data_csv w) (CustomerID t)) (rfm_data_csv w)))
        monetary_scores = Inr ms"
    "cut (map (\<lambda>s. Some (rat_of_int s)) (map (\<lambda>i. rs ! i + fs ! i + ms ! i) [0..<length (rfm_data_csv w)]))
        3 segment_labels = Inr vs"
    "length ds = length (rfm_data_csv w)" "length rs = length (rfm_data_csv w)"
    "length fs = length (rfm_data_csv w)" "length ms = length (rfm_data_csv w)"
    "length vs = length (rfm_data_csv w)" "length out = length (rfm_data_csv w)"
    "\<And>i. i < length (rfm_data_csv w) \<Longrightarrow> out ! i =
       \<lparr>txn = rfm_data_csv w ! i, Date = Some (ds ! i), Recency = now_day w - ds ! i,
        Frequency = Some (order_count (rfm_data_csv w) (CustomerID (rfm_data_csv w ! i))),
        MonetaryValue = Some (amount_sum (rfm_data_csv w) (CustomerID (rfm_data_csv w ! i))),
        RecencyScore = rs ! i, FrequencyScore = fs ! i, MonetaryScore = ms ! i,
        RFM_Score = rs ! i + fs ! i + ms ! i, Value_Segment = vs ! i,
        RFM_Customer_Segments = segment_rule (rs ! i + fs ! i + ms ! i)\<rparr>"
proof -
  from preprocess_data_Inr [OF assms] obtain ds rs fs ms vs where
    ds: "map (\<lambda>t. parse (PurchaseDate t)) (rfm_data_csv w) = map Some ds"
    and rs: "score_column (map Some (map (\<lambda>d. rat_of_int (now_day w - d)) ds)) recency_scores = Inr rs"
    and fs: "score_column (map Some (map (\<lambda>t. rat_of_nat (order_count (rfm_data_csv w) (CustomerID t))) (rfm_data_csv w)))
        frequency_scores = Inr fs"
    and ms: "score_column (map Some (map (\<lambda>t. amount_sum (rfm_data_csv w) (CustomerID t)) (rfm_data_csv w)))
        monetary_scores = Inr ms"
    and vs: "cut (map (\<lambda>s. Some (rat_of_int s)) (map (\<lambda>i. rs ! i + fs ! i + ms ! i) [0..<length (rfm_data_csv w)]))
        3 segment_labels = Inr vs"
    and out: "out = assemble (map (metrics_row (rfm_data_csv w) (now_day w)) (zip (rfm_data_csv w) ds)) rs fs ms vs
              (customer_segments (map (\<lambda>i. rs ! i + fs ! i + ms ! i) [0..<length (rfm_data_csv w)]))"
    by blast
  from ds have len: "length (rfm_data_csv w) = length ds" by (metis length_map)
  have l_rs: "length rs = length (rfm_data_csv w)"
    using length_score_column [OF rs] len by simp
  have l_fs: "length fs = length (rfm_data_csv w)"
    using length_score_column [OF fs] by simp
  have l_ms: "length ms = length (rfm_data_csv w)"
    using length_score_column [OF ms] by simp
  have l_vs: "length vs = length (rfm_data_csv w)"
    using length_cut [OF vs] by simp
  have l_out: "length out = length (rfm_data_csv w)"
    unfolding out length_assemble using len by simp
  have row: "out ! i =
       \<lparr>txn = rfm_data_csv w ! i, Date = Some (ds ! i), Recency = now_day w - ds ! i,
        Frequency = Some (order_count (rfm_data_csv w) (CustomerID (rfm_data_csv w ! i))),
        MonetaryValue = Some (amount_sum (rfm_data_csv w) (CustomerID (rfm_data_csv w ! i))),
        RecencyScore = rs ! i, FrequencyScore = fs ! i, MonetaryScore = ms ! i,
        RFM_Score = rs ! i + fs ! i + ms ! i, Value_Segment = vs ! i,
        RFM_Customer_Segments = segment_rule (rs ! i + fs ! i + ms ! i)\<rparr>"
    if "i < length (rfm_data_csv w)" for i
    unfolding out using that len
    by (simp add: nth_assemble_metrics customer_segments_rule)
  from ds rs fs ms vs len l_rs l_fs l_ms l_vs l_out row show ?thesis
    by (intro that [of ds rs fs ms vs]) simp_all
qed

subsection \<open>The concrete input, evaluated\<close>


lemma upt6: "[0..<6] = [0, 1, 2, 3, 4, 5::nat]"
  by code_simp

lemma upt4: "[0..<4] = [0, 1, 2, 3::nat]"
  by code_simp


lemmas cut_eval = score_column_def cut_def nbins_to_bins_def linspace_def bins_to_cuts_def bin_index_def
      searchsorted_left_def Let_def upt6 upt4

lemma ex_metrics:
  "rfm_metrics ex_parse ex_world =
     Inr (map (metrics_row ex_data 19518) (zip ex_data [19418, 19418, 19418, 19518, 19518, 19518]))"
proof -
  have "map (\<lambda>t. ex_parse (PurchaseDate t)) (rfm_data_csv ex_world) =
          map Some [19418, 19418, 19418, 19518, 19518, 19518]"
    by (simp add: ex_world_def ex_data_def ex_parse_def)
  from rfm_metrics_present [OF this] show ?thesis by (simp add: ex_world_def)
qed

lemma ex_preprocess: "preprocess_data ex_parse ex_world = Inr ex_out"
  unfolding preprocess_data_def ex_metrics sum.case
  by (simp add: ex_data_def metrics_row_def order_count_def amount_sum_def cut_eval
      recency_scores_def frequency_scores_def monetary_scores_def segment_labels_def
      customer_segments_def loc_assign_def assemble_def ex_out_def)

subsection \<open>The re-engagement pass\<close>

lemma length_loc_set_segment: "length (loc_set_segment idx v data) = length data"
  by (simp add: loc_set_segment_def)

lemma nth_loc_set_segment:
  "i < length data \<Longrightarrow>
     loc_set_segment idx v data ! i =
       (if i \<in> set idx then (data ! i)\<lparr>RFM_Customer_Segments := v\<rparr> else data ! i)"
  by (simp add: loc_set_segment_def)





lemma sample_size_closed: "sample_size n = (n + 2) div 5"
proof -
  have q: "reactivation_rate * rat_of_nat n = rat_of_int (int n) / rat_of_int 5"
    by (simp add: reactivation_rate_def)
  have f: "\<lfloor>reactivation_rate * rat_of_nat n\<rfloor> = int n div 5"
    unfolding q by (rule floor_divide_of_int_eq)
  have d: "reactivation_rate * rat_of_nat n - rat_of_int (int n div 5) = rat_of_int (int n mod 5) / 5"
  proof -
    have "rat_of_int (int n) = rat_of_int (5 * (int n div 5) + int n mod 5)" by simp
    also have "\<dots> = 5 * rat_of_int (int n div 5) + rat_of_int (int n mod 5)"
      by (simp only: of_int_add of_int_mult of_int_numeral)
    finally show ?thesis unfolding q by (simp add: field_simps)
  qed
  have lt: "rat_of_int (int n mod 5) / 5 < 1 / 2 \<longleftrightarrow> int n mod 5 \<le> 2"
  proof -
    have "rat_of_int (int n mod 5) / 5 < 1 / 2 \<longleftrightarrow> rat_of_int (2 * (int n mod 5)) < rat_of_int 5"
      by (simp add: field_simps)
    also have "\<dots> \<longleftrightarrow> 2 * (int n mod 5) < 5" by (simp only: of_int_less_iff)
    finally show ?thesis by linarith
  qed
  have gt: "1 / 2 < rat_of_int (int n mod 5) / 5 \<longleftrightarrow> 3 \<le> int n mod 5"
  proof -
    have "1 / 2 < rat_of_int (int n mod 5) / 5 \<longleftrightarrow> rat_of_int 5 < rat_of_int (2 * (int n mod 5))"
      by (simp add: field_simps)
    also have "\<dots> \<longleftrightarrow> 5 < 2 * (int n mod 5)" by (simp only: of_int_less_iff)
    finally show ?thesis by linarith
  qed
  have "py_round (reactivation_rate * rat_of_nat n) = (int n + 2) div 5"
    unfolding py_round_def Let_def f d lt gt by (simp; presburger)
  then have "sample_size n = nat ((int n + 2) div 5)"
    by (simp add: sample_size_def)
  also have "\<dots> = (n + 2) div 5"
    by (metis nat_int of_nat_add of_nat_numeral zdiv_int)
  finally show ?thesis .
qed



lemma map_field_loc_set_segment:
  assumes "\<And>r s. f (r\<lparr>RFM_Customer_Segments := s\<rparr>) = f r"
  shows "map f (loc_set_segment idx v data) = map f data"
  by (intro nth_equalityI) (simp_all add: length_loc_set_segment nth_loc_set_segment assms)

lemma upt3: "[0..<3] = [0, 1, 2::nat]"
  by code_simp

lemma ex_lost: "lost_customers ex_out = [0, 1, 2]"
  by (simp add: lost_customers_def ex_out_def upt6)

lemma ex_lost_length: "length (lost_customers ex_out) = 3"
  by (simp add: ex_lost)

lemma ex_sample: "sample_size 3 = 1"
  by (simp add: sample_size_closed)

lemma ex_locs:
  "ex_choice 1 (length (lost_customers ex_out)) (sample_size (length (lost_customers ex_out))) = [2]"
  unfolding ex_lost_length ex_sample ex_choice_def upt3 by simp

lemma ex_reactivated: "reactivated_customers ex_choice ex_out = [2]"
  unfolding reactivated_customers_def Let_def ex_locs by (simp add: ex_lost)

lemma ex_create_plots:
  "create_plots ex_choice ex_out =
     ex_out[2 := (ex_out ! 2)\<lparr>RFM_Customer_Segments := ''Potential Loyalists''\<rparr>]"
  unfolding create_plots_def ex_reactivated
  by (simp add: loc_set_segment_def ex_out_def upt6)

subsection \<open>Segment counts and missing scores\<close>

lemma segment_count_count_list:
  "segment_count data s = count_list (map RFM_Customer_Segments data) s"
  by (induction data) (auto simp: segment_count_def)

lemma sum_segment_count:
  "(\<Sum>s \<in> set (map RFM_Customer_Segments data). segment_count data s) = length data"
  using sum_count_set [of "map RFM_Customer_Segments data" "set (map RFM_Customer_Segments data)"]
  by (simp add: segment_count_count_list)

lemma score_column_missing:
  assumes "None \<in> set col"
  shows "score_column col labels \<noteq> Inr rs"
proof
  assume "score_column col labels = Inr rs"
  then obtain c where c: "cut col 5 labels = Inr c" and a: "astype_int c = Inr rs"
    by (auto simp: score_column_def split: sum.splits)
  from c have "c = map (\<lambda>v. map_option (\<lambda>i. labels ! i)
      (bin_index (nbins_to_bins (concat (map (\<lambda>v. case v of None \<Rightarrow> [] | Some a \<Rightarrow> [a]) col)) 5) v)) col"
    by (auto simp: cut_def bins_to_cuts_def Let_def split: if_splits)
  with assms have "None \<in> set c" by (force simp: bin_index_def)
  with astype_int_Inr [OF a] show False by auto
qed

subsection \<open>Bins of a metric that varies\<close>













subsection \<open>Bins of a constant metric\<close>







subsection \<open>The small inputs, evaluated\<close>






section \<open>Properties of the pipeline\<close>

text \<open>
  C1. In every row of the table that \<^verbatim>\<open>preprocess_data\<close> returns, each of
  RecencyScore, FrequencyScore and MonetaryScore is one of 1, 2, 3, 4, 5, RFM_Score is
  their sum, and so RFM_Score lies between 3 and 15.
\<close>

theorem scores_between_1_and_5:
  assumes "preprocess_data parse w = Inr out" and "r \<in> set out"
  shows "RecencyScore r \<in> {1, 2, 3, 4, 5} \<and> FrequencyScore r \<in> {1, 2, 3, 4, 5}
       \<and> MonetaryScore r \<in> {1, 2, 3, 4, 5}
       \<and> RFM_Score r = RecencyScore r + FrequencyScore r + MonetaryScore r
       \<and> 3 \<le> RFM_Score r \<and> RFM_Score r \<le> 15"
proof -
  from assms(1) obtain ds rs fs ms where
    rs: "score_column (map Some (map (\<lambda>d. rat_of_int (now_day w - d)) ds)) recency_scores = Inr rs"
    and fs: "score_column (map Some (map (\<lambda>t. rat_of_nat (order_count (rfm_data_csv w) (CustomerID t))) (rfm_data_csv w)))
        frequency_scores = Inr fs"
    and ms: "score_column (map Some (map (\<lambda>t. amount_sum (rfm_data_csv w) (CustomerID t)) (rfm_data_csv w)))
        monetary_scores = Inr ms"
    and len: "length rs = length (rfm_data_csv w)" "length fs = length (rfm_data_csv w)"
      "length ms = length (rfm_data_csv w)" "length out = length (rfm_data_csv w)"
    and row: "\<And>i. i < length (rfm_data_csv w) \<Longrightarrow>
        RecencyScore (out ! i) = rs ! i \<and> FrequencyScore (out ! i) = fs ! i \<and>
        MonetaryScore (out ! i) = ms ! i \<and> RFM_Score (out ! i) = rs ! i + fs ! i + ms ! i"
    by (rule preprocess_data_rows) simp
  from assms(2) obtain i where i: "i < length out" and r: "r = out ! i"
    by (auto simp: in_set_conv_nth)
  from i len have "rs ! i \<in> set rs" "fs ! i \<in> set fs" "ms ! i \<in> set ms" by simp_all
  with score_column_labels [OF rs] score_column_labels [OF fs] score_column_labels [OF ms]
  have "rs ! i \<in> {1, 2, 3, 4, 5}" "fs ! i \<in> {1, 2, 3, 4, 5}" "ms ! i \<in> {1, 2, 3, 4, 5}"
    by (auto simp: recency_scores_def frequency_scores_def monetary_scores_def)
  moreover from row [of i] i len r have "RecencyScore r = rs ! i" "FrequencyScore r = fs ! i"
    "MonetaryScore r = ms ! i" "RFM_Score r = rs ! i + fs ! i + ms ! i"
    by simp_all
  ultimately show ?thesis by auto
qed

theorem scores_between_1_and_5_witness:
  "preprocess_data ex_parse ex_world = Inr ex_out \<and> ex_out ! 0 \<in> set ex_out
   \<and> RecencyScore (ex_out ! 0) \<in> {1, 2, 3, 4, 5} \<and> FrequencyScore (ex_out ! 0) \<in> {1, 2, 3, 4, 5}
   \<and> MonetaryScore (ex_out ! 0) \<in> {1, 2, 3, 4, 5}
   \<and> RFM_Score (ex_out ! 0) = RecencyScore (ex_out ! 0) + FrequencyScore (ex_out ! 0) + MonetaryScore (ex_out ! 0)
   \<and> 3 \<le> RFM_Score (ex_out ! 0) \<and> RFM_Score (ex_out ! 0) \<le> 15"
proof -
  have m: "ex_out ! 0 \<in> set ex_out" by (simp add: ex_out_def)
  from scores_between_1_and_5 [OF ex_preprocess m] ex_preprocess m show ?thesis by blast
qed

text \<open>
  C2. Before the re-engagement pass the customer segment is a function of RFM_Score
  alone, the rule chain \<open>segment_rule\<close>: the five masked assignments of lines 55 to 59
  compute it for any score column, so does every table \<^verbatim>\<open>preprocess_data\<close> returns,
  and the scores 9, 8, 5, 4, 3 give Champions, Potential Loyalists, At Risk Customers,
  Can't Lose and Lost.
\<close>

theorem customer_segment_rule_chain:
  "customer_segments rfm = map segment_rule rfm
   \<and> (preprocess_data parse w = Inr out \<longrightarrow>
        map RFM_Customer_Segments out = map (\<lambda>r. segment_rule (RFM_Score r)) out)
   \<and> customer_segments [9, 8, 5, 4, 3] =
        [''Champions'', ''Potential Loyalists'', ''At Risk Customers'', ''Can't Lose'', ''Lost'']"
proof (intro conjI impI)
  show "customer_segments rfm = map segment_rule rfm"
    by (simp add: customer_segments_def Let_def loc_assign_map segment_rule_def)
  show "customer_segments [9, 8, 5, 4, 3] =
        [''Champions'', ''Potential Loyalists'', ''At Risk Customers'', ''Can't Lose'', ''Lost'']"
    by (simp add: customer_segments_def Let_def loc_assign_def)
  assume "preprocess_data parse w = Inr out"
  then obtain rs fs ms where len: "length out = length (rfm_data_csv w)"
    and row: "\<And>i. i < length (rfm_data_csv w) \<Longrightarrow>
        RFM_Score (out ! i) = rs ! i + fs ! i + ms ! i \<and>
        RFM_Customer_Segments (out ! i) = segment_rule (rs ! i + fs ! i + ms ! i)"
    by (rule preprocess_data_rows) simp
  then show "map RFM_Customer_Segments out = map (\<lambda>r. segment_rule (RFM_Score r)) out"
    by (simp add: list_eq_iff_nth_eq)
qed

theorem customer_segment_rule_chain_witness:
  "preprocess_data ex_parse ex_world = Inr ex_out
   \<and> map RFM_Customer_Segments ex_out = map (\<lambda>r. segment_rule (RFM_Score r)) ex_out
   \<and> map RFM_Customer_Segments ex_out = [''Lost'', ''Lost'', ''Lost'', ''Champions'', ''Champions'', ''Champions'']"
proof -
  have "map RFM_Customer_Segments ex_out = map (\<lambda>r. segment_rule (RFM_Score r)) ex_out"
    using customer_segment_rule_chain [of _ ex_parse ex_world ex_out] ex_preprocess by blast
  moreover have "map RFM_Customer_Segments ex_out =
      [''Lost'', ''Lost'', ''Lost'', ''Champions'', ''Champions'', ''Champions'']"
    by (simp add: ex_out_def)
  ultimately show ?thesis using ex_preprocess by blast
qed



text \<open>
  C6. The re-engagement pass changes the customer segment only: the table keeps its
  length, every other column is the same before and after, and a row that was not
  selected is the same row.
\<close>

theorem reengagement_frame:
  "length (create_plots choice data) = length data
   \<and> map txn (create_plots choice data) = map txn data
   \<and> map Date (create_plots choice data) = map Date data
   \<and> map Recency (create_plots choice data) = map Recency data
   \<and> map Frequency (create_plots choice data) = map Frequency data
   \<and> map MonetaryValue (create_plots choice data) = map MonetaryValue data
   \<and> map RecencyScore (create_plots choice data) = map RecencyScore data
   \<and> map FrequencyScore (create_plots choice data) = map FrequencyScore data
   \<and> map MonetaryScore (create_plots choice data) = map MonetaryScore data
   \<and> map RFM_Score (create_plots choice data) = map RFM_Score data
   \<and> map Value_Segment (create_plots choice data) = map Value_Segment data
   \<and> (\<forall>i < length data. i \<notin> set (reactivated_customers choice data) \<longrightarrow>
         create_plots choice data ! i = data ! i)"
  unfolding create_plots_def
  by (intro conjI map_field_loc_set_segment length_loc_set_segment)
     (simp_all add: nth_loc_set_segment)

theorem reengagement_frame_witness:
  "0 < length ex_out \<and> 0 \<notin> set (reactivated_customers ex_choice ex_out)
   \<and> create_plots ex_choice ex_out ! 0 = ex_out ! 0
   \<and> 2 \<in> set (reactivated_customers ex_choice ex_out)
   \<and> RFM_Customer_Segments (ex_out ! 2) = ''Lost''
   \<and> RFM_Customer_Segments (create_plots ex_choice ex_out ! 2) = ''Potential Loyalists''
   \<and> map RFM_Score (create_plots ex_choice ex_out) = [3, 3, 3, 15, 15, 15]
   \<and> map Value_Segment (create_plots ex_choice ex_out) = map Value_Segment ex_out"
proof -
  have h1: "0 < length ex_out" by (simp add: ex_out_def)
  have h2: "0 \<notin> set (reactivated_customers ex_choice ex_out)" by (simp add: ex_reactivated)
  have s: "RFM_Customer_Segments (create_plots ex_choice ex_out ! 2) = ''Potential Loyalists''"
    unfolding ex_create_plots by (simp add: ex_out_def)
  have o: "map RFM_Score ex_out = [3, 3, 3, 15, 15, 15]" "RFM_Customer_Segments (ex_out ! 2) = ''Lost''"
    by (simp_all add: ex_out_def)
  from reengagement_frame [of ex_choice ex_out] h1 h2 s o show ?thesis
    by (simp add: ex_reactivated)
qed

text \<open>
  C9. The pipeline keeps the rows: a table \<^verbatim>\<open>preprocess_data\<close> returns has the input
  transactions as its rows, one for one and in order; each left merge onto a group-by
  result of the same table returns every left row once; the re-engagement pass keeps
  the length; and the segment counts add up to the number of rows before and after it.
\<close>

theorem row_set_preserved:
  "(preprocess_data parse w = Inr out \<longrightarrow>
      length out = length (rfm_data_csv w) \<and> map txn out = rfm_data_csv w)
   \<and> map fst (merge_left rows key (groupby_count (map (\<lambda>r. (key r, v r)) rows))) = rows
   \<and> map fst (merge_left rows key (groupby_sum (map (\<lambda>r. (key r, a r)) rows))) = rows
   \<and> length (create_plots choice data) = length data
   \<and> (\<Sum>s \<in> set (map RFM_Customer_Segments data). segment_count data s) = length data
   \<and> (\<Sum>s \<in> set (map RFM_Customer_Segments (create_plots choice data)).
         segment_count (create_plots choice data) s) = length data
   \<and> (index parse choice w = Inr final \<longrightarrow>
         length final = length (rfm_data_csv w) \<and> map txn final = rfm_data_csv w)"
proof -
  have pre: "length out' = length (rfm_data_csv w) \<and> map txn out' = rfm_data_csv w"
    if "preprocess_data parse w = Inr out'" for out'
  proof -
    from that have "length out' = length (rfm_data_csv w)
        \<and> (\<forall>i < length (rfm_data_csv w). txn (out' ! i) = rfm_data_csv w ! i)"
      by (rule preprocess_data_rows) simp
    then show ?thesis by (simp add: list_eq_iff_nth_eq)
  qed
  have len: "length (create_plots choice d) = length d" for d
    by (simp add: create_plots_def length_loc_set_segment)
  have tx: "map txn (create_plots choice d) = map txn d" for d
    unfolding create_plots_def by (rule map_field_loc_set_segment) simp
  have fin: "length final = length (rfm_data_csv w) \<and> map txn final = rfm_data_csv w"
    if "index parse choice w = Inr final"
  proof -
    from that obtain out' where o: "preprocess_data parse w = Inr out'"
      and f: "final = create_plots choice out'"
      by (auto simp: index_def split: sum.splits)
    from pre [OF o] show ?thesis unfolding f by (simp add: len tx)
  qed
  have m1: "map fst (merge_left rows key (groupby_count (map (\<lambda>r. (key r, v r)) rows))) = rows"
    unfolding merge_left_groupby_count by (simp add: comp_def)
  have m2: "map fst (merge_left rows key (groupby_sum (map (\<lambda>r. (key r, a r)) rows))) = rows"
    unfolding merge_left_groupby_sum by (simp add: comp_def)
  have s2: "(\<Sum>s \<in> set (map RFM_Customer_Segments (create_plots choice data)).
         segment_count (create_plots choice data) s) = length data"
    using sum_segment_count [of "create_plots choice data"] by (simp only: len)
  from pre fin m1 m2 len sum_segment_count [of data] s2 show ?thesis by blast
qed

theorem row_set_preserved_witness:
  "preprocess_data ex_parse ex_world = Inr ex_out
   \<and> length ex_out = length (rfm_data_csv ex_world) \<and> map txn ex_out = rfm_data_csv ex_world
   \<and> length (rfm_data_csv ex_world) = 6
   \<and> index ex_parse ex_choice ex_world = Inr (create_plots ex_choice ex_out)
   \<and> length (create_plots ex_choice ex_out) = 6"
proof -
  have i: "index ex_parse ex_choice ex_world = Inr (create_plots ex_choice ex_out)"
    by (simp add: index_def ex_preprocess)
  have l: "length (rfm_data_csv ex_world) = 6" by (simp add: ex_world_def ex_data_def)
  from row_set_preserved [where parse = ex_parse and w = ex_world and out = ex_out and rows = ex_data
      and key = CustomerID and v = OrderID and a = TransactionAmount and choice = ex_choice
      and data = ex_out and final = "create_plots ex_choice ex_out"]
    ex_preprocess i l
  show ?thesis by simp
qed

text \<open>
  C10. Frequency is the number of the customer's rows that carry an OrderID, not the
  number of the customer's rows: the two agree for a customer all of whose rows carry
  one, Frequency is strictly smaller for a customer with a row that lacks one, and
  there is an input where this happens.
\<close>

theorem frequency_counts_order_ids:
  "(preprocess_data parse w = Inr out \<longrightarrow>
      (\<forall>r \<in> set out. Frequency r = Some (order_count (rfm_data_csv w) (CustomerID (txn r)))))
   \<and> order_count data c \<le> row_count data c
   \<and> ((\<forall>t \<in> set data. CustomerID t = c \<longrightarrow> OrderID t \<noteq> None) \<longrightarrow> order_count data c = row_count data c)
   \<and> ((\<exists>t \<in> set data. CustomerID t = c \<and> OrderID t = None) \<longrightarrow> order_count data c < row_count data c)
   \<and> (\<exists>parse' w' out' r f. preprocess_data parse' w' = Inr out' \<and> r \<in> set out'
         \<and> Frequency r = Some f \<and> f < row_count (rfm_data_csv w') (CustomerID (txn r)))"
proof -
  have a: "\<forall>r \<in> set out. Frequency r = Some (order_count (rfm_data_csv w) (CustomerID (txn r)))"
    if "preprocess_data parse w = Inr out"
  proof
    fix r assume "r \<in> set out"
    then obtain i where i: "i < length out" and r: "r = out ! i"
      by (auto simp: in_set_conv_nth)
    from that have "length out = length (rfm_data_csv w)
        \<and> (\<forall>i < length (rfm_data_csv w).
         txn (out ! i) = rfm_data_csv w ! i \<and>
         Frequency (out ! i) = Some (order_count (rfm_data_csv w) (CustomerID (rfm_data_csv w ! i))))"
      by (rule preprocess_data_rows) simp
    with i r show "Frequency r = Some (order_count (rfm_data_csv w) (CustomerID (txn r)))"
      by simp
  qed
  have b: "order_count data c \<le> row_count data c"
    by (induction data) (auto simp: order_count_def row_count_def)
  have c: "order_count data c = row_count data c"
    if "\<forall>t \<in> set data. CustomerID t = c \<longrightarrow> OrderID t \<noteq> None"
  proof -
    from that have "filter (\<lambda>t. CustomerID t = c \<and> OrderID t \<noteq> None) data = filter (\<lambda>t. CustomerID t = c) data"
      by (intro filter_cong) auto
    then show ?thesis by (simp add: order_count_def row_count_def)
  qed
  have d: "order_count data c < row_count data c"
    if "\<exists>t \<in> set data. CustomerID t = c \<and> OrderID t = None"
  proof -
    from that obtain t where t: "t \<in> set data" "CustomerID t = c" "OrderID t = None" by blast
    have "filter (\<lambda>t. CustomerID t = c \<and> OrderID t \<noteq> None) data
        = filter (\<lambda>t. OrderID t \<noteq> None) (filter (\<lambda>t. CustomerID t = c) data)"
      by (simp add: conj_commute)
    moreover have "length (filter (\<lambda>t. OrderID t \<noteq> None) (filter (\<lambda>t. CustomerID t = c) data))
        < length (filter (\<lambda>t. CustomerID t = c) data)"
      using t by (intro length_filter_less [of t]) auto
    ultimately show ?thesis by (simp add: order_count_def row_count_def)
  qed
  have e: "\<exists>parse' w' out' r f. preprocess_data parse' w' = Inr out' \<and> r \<in> set out'
         \<and> Frequency r = Some f \<and> f < row_count (rfm_data_csv w') (CustomerID (txn r))"
  proof (intro exI conjI)
    show "preprocess_data ex_parse ex_world = Inr ex_out" by (rule ex_preprocess)
    show "ex_out ! 4 \<in> set ex_out" by (simp add: ex_out_def)
    show "Frequency (ex_out ! 4) = Some 2" by (simp add: ex_out_def)
    show "2 < row_count (rfm_data_csv ex_world) (CustomerID (txn (ex_out ! 4)))"
      by (simp add: ex_out_def ex_world_def ex_data_def row_count_def)
  qed
  from a b c d e show ?thesis by blast
qed

theorem frequency_counts_order_ids_witness:
  "preprocess_data ex_parse ex_world = Inr ex_out \<and> ex_out ! 4 \<in> set ex_out
   \<and> OrderID (txn (ex_out ! 4)) = None
   \<and> Frequency (ex_out ! 4) = Some (order_count (rfm_data_csv ex_world) (CustomerID (txn (ex_out ! 4))))
   \<and> Frequency (ex_out ! 4) = Some 2
   \<and> row_count (rfm_data_csv ex_world) (CustomerID (txn (ex_out ! 4))) = 3
   \<and> Frequency (ex_out ! 0) = Some (row_count (rfm_data_csv ex_world) (CustomerID (txn (ex_out ! 0))))"
proof -
  have m: "ex_out ! 4 \<in> set ex_out" "ex_out ! 0 \<in> set ex_out" by (simp_all add: ex_out_def)
  have v: "OrderID (txn (ex_out ! 4)) = None" "Frequency (ex_out ! 4) = Some 2"
    "row_count (rfm_data_csv ex_world) (CustomerID (txn (ex_out ! 4))) = 3"
    "Frequency (ex_out ! 0) = Some (row_count (rfm_data_csv ex_world) (CustomerID (txn (ex_out ! 0))))"
    by (simp_all add: ex_out_def ex_world_def ex_data_def row_count_def)
  from frequency_counts_order_ids [of ex_parse ex_world ex_out] ex_preprocess m
  have "Frequency (ex_out ! 4) = Some (order_count (rfm_data_csv ex_world) (CustomerID (txn (ex_out ! 4))))"
    by blast
  with ex_preprocess m v show ?thesis by simp
qed



text \<open>
  C5. A date that does not parse becomes the missing marker without raising at line 16,
  but the table is then never returned: the missing Recency has no \<^verbatim>\<open>days\<close> at line
  19 and the request aborts. A missing value that reached a score column would also
  abort it, at \<^verbatim>\<open>.astype(int)\<close>.
\<close>

theorem malformed_date_aborts:
  assumes "t \<in> set (rfm_data_csv w)" and "parse (PurchaseDate t) = None"
  shows "to_datetime parse [PurchaseDate t] = [None]
       \<and> preprocess_data parse w = Inl AttributeError_days
       \<and> index parse choice w = Inl AttributeError_days
       \<and> (\<forall>col labels rs. None \<in> set col \<longrightarrow> score_column col labels \<noteq> Inr rs)"
  using assms rfm_metrics_missing [where t = t and w = w and parse = parse, OF assms]
  by (simp add: to_datetime_def preprocess_data_def index_def score_column_missing)

theorem malformed_date_aborts_witness:
  "\<lparr>CustomerID = 5, OrderID = Some 107, PurchaseDate = ''not a date'', TransactionAmount = 20\<rparr>
     \<in> set (rfm_data_csv bad_world)
   \<and> ex_parse (PurchaseDate
        \<lparr>CustomerID = 5, OrderID = Some 107, PurchaseDate = ''not a date'', TransactionAmount = 20\<rparr>) = None
   \<and> preprocess_data ex_parse bad_world = Inl AttributeError_days
   \<and> index ex_parse ex_choice bad_world = Inl AttributeError_days"
proof -
  have h1: "\<lparr>CustomerID = 5, OrderID = Some 107, PurchaseDate = ''not a date'', TransactionAmount = 20\<rparr>
     \<in> set (rfm_data_csv bad_world)"
    by (simp add: bad_world_def)
  have h2: "ex_parse (PurchaseDate
        \<lparr>CustomerID = 5, OrderID = Some 107, PurchaseDate = ''not a date'', TransactionAmount = 20\<rparr>) = None"
    by (simp add: ex_parse_def)
  from malformed_date_aborts [where w = bad_world and parse = ex_parse and choice = ex_choice, OF h1 h2] h1 h2
  show ?thesis by blast
qed






end
